theory Spec2Isabelle
  imports Main "HOL-Library.Sublist"
begin

section \<open>The async-call registry of \<open>redux/actions/async.ts\<close>\<close>

text \<open>
  The module keeps three pieces of process-wide state (\<open>pendingCleanCallbacks\<close>,
  \<open>asyncCallCache\<close>, \<open>nextAsyncId\<close>), reads the redux store through
  \<open>selectAsyncStatus\<close> and writes to it through \<open>dispatch\<close>. The embedding passes
  one record of all of that state through every function. The reducer and the selector
  belong to other modules (\<open>reducers/async\<close>, \<open>selectors/async\<close>) and the promises are
  Bluebird's, so the functions of this module take as parameters the reducer, the
  selector and the names a Bluebird promise answers to, as the thunk returned by
  \<open>startAsync\<close> takes \<open>dispatch\<close> and \<open>getState\<close>.
\<close>

subsection \<open>Data\<close>

text \<open>A JavaScript \<open>Error\<close>, told apart by its message.\<close>

type_synonym Error = string

text \<open>
  Modelled from the spec: the enumeration \<open>AsyncStatus\<close> of \<open>reducers/async\<close>, of which
  the module names only \<open>PENDING\<close>. The spec lists the five states.
\<close>

datatype AsyncStatus = NOT_STARTED | PENDING | RESOLVED | REJECTED | FINISHED

text \<open>
  \<open>AsyncAction\<close>: an action is \<open>{ meta: { asyncId }, type }\<close>, and the rejected one
  carries \<open>error: true\<close> and the error as \<open>payload\<close>. The constructor is the \<open>type\<close>
  tag, its first argument is \<open>meta.asyncId\<close>.
\<close>

datatype AsyncAction =
    ASYNC_STARTED string
  | ASYNC_RESOLVED string
  | ASYNC_REJECTED string Error
  | ASYNC_FINISHED string
  | CLEAN_ASYNC_STATE string
  | RELEASE_ASYNC_STATE string
  | RESET_ASYNC_STATE string
  | RETAIN_ASYNC_STATE string

text \<open>
  How a promise settles: with a value or with an error. Values are opaque to the module,
  a number stands for one.
\<close>

datatype outcome = Fulfilled nat | Rejected Error

text \<open>
  \<open>AsyncCallPromise\<close>: a Bluebird promise with an \<open>id\<close> property attached. The promise
  is an object on the heap; \<open>settled\<close> is \<open>None\<close> while it is pending.
\<close>

record AsyncCallPromise =
  id_prop :: string
  settled :: "outcome option"

text \<open>
  The first argument of \<open>startAsync\<close>: a promise, or a thunk. A thunk that is called
  returns a promise (\<open>Thunk\<close>) or throws (\<open>Throws\<close>). The number names the underlying
  promise.
\<close>

datatype work = Promise nat | Thunk nat | Throws Error

fun isPromise :: "work \<Rightarrow> bool" where
  "isPromise (Promise p) = True"
| "isPromise (Thunk p) = False"
| "isPromise (Throws err) = False"

fun throws :: "work \<Rightarrow> bool" where
  "throws (Promise p) = False"
| "throws (Thunk p) = False"
| "throws (Throws err) = True"

text \<open>
  What reading \<open>asyncCallCache[id]\<close> can give besides \<open>undefined\<close>: a promise that
  \<open>startAsync\<close> stored, or whatever the object inherits under that name (\<open>Foreign\<close>: a
  method of \<open>Object.prototype\<close>, \<open>Object.prototype\<close> itself, a member of a promise).
\<close>

datatype jsval = PromiseRef nat | Foreign string

text \<open>
  What the module does to the world outside, in the order it does it: actions
  dispatched, timers cleared and armed (\<open>SetTimeout h i d\<close>: the callback that cleans
  \<open>i\<close> was scheduled after \<open>d\<close> milliseconds under the handle \<open>h\<close>), thunks called
  (\<open>Called p\<close>: it returned the promise \<open>p\<close>; \<open>Threw err\<close>: it threw), and warnings written
  to the console.
\<close>

datatype event =
    Dispatched AsyncAction
  | ClearTimeout "nat option"
  | SetTimeout nat string nat
  | Called nat
  | Threw Error
  | Warned string

text \<open>
  The state: the redux store, the module's three variables, the timers of the JavaScript
  runtime that are scheduled and have neither fired nor been cleared (handle to the id
  its callback cleans and its delay), the heap of promises made by \<open>startAsync\<close>, and the
  handles whose \<open>then\<close> or \<open>catch\<close> callback has run and whose \<open>finally\<close> callback is still
  to run (\<open>reported\<close>, with the outcome the callback will pass on).

  \<open>pendingCleanCallbacks\<close> and \<open>asyncCallCache\<close> are plain objects (\<open>{}\<close>) used as
  dictionaries. \<open>pendingCleanCallbacks\<close> is the map of its own properties.
  \<open>asyncCallCache\<close> maps a name to the promise the object holds under it: its own
  properties, and under \<open>__proto__\<close> the promise that an assignment to that name has made
  its prototype (none while the prototype is \<open>Object.prototype\<close>).
\<close>

record 'st world =
  store :: 'st
  trace :: "event list"
  pendingCleanCallbacks :: "string \<rightharpoonup> nat"
  asyncCallCache :: "string \<rightharpoonup> nat"
  nextAsyncId :: nat
  timers :: "nat \<rightharpoonup> string \<times> nat"
  nextTimer :: nat
  promises :: "nat \<rightharpoonup> AsyncCallPromise"
  nextPromise :: nat
  reported :: "nat \<rightharpoonup> outcome"

definition CLEAN_DELAY :: nat where
  "CLEAN_DELAY = 1000"

subsection \<open>Plain objects as dictionaries\<close>

text \<open>
  The names every plain object inherits from \<open>Object.prototype\<close>; \<open>__proto__\<close> is the
  accessor of the prototype.
\<close>

definition objectPrototypeNames :: "string list" where
  "objectPrototypeNames =
     [''constructor'', ''toString'', ''toLocaleString'', ''valueOf'', ''hasOwnProperty'',
      ''isPrototypeOf'', ''propertyIsEnumerable'', ''__proto__'',
      ''__defineGetter__'', ''__defineSetter__'', ''__lookupGetter__'', ''__lookupSetter__'']"

text \<open>
  \<open>asyncCallCache[k]\<close>. An own property wins, and \<open>__proto__\<close> reads the promise that was
  made the prototype. Otherwise the prototype chain answers: \<open>Object.prototype\<close> under its
  names, and, once a promise is the prototype, that promise under \<open>id\<close> and under the
  names a Bluebird promise has (\<open>has\<close>). Only a name nobody answers to reads as
  \<open>undefined\<close> (\<open>None\<close>).
\<close>

definition cacheGet :: "(string \<Rightarrow> bool) \<Rightarrow> (string \<rightharpoonup> nat) \<Rightarrow> string \<Rightarrow> jsval option" where
  "cacheGet has cache k =
     (case cache k of
        Some a \<Rightarrow> Some (PromiseRef a)
      | None \<Rightarrow>
          if k \<in> set objectPrototypeNames then Some (Foreign k)
          else if cache ''__proto__'' = None then None
          else if k = ''id'' then Some (Foreign k)
          else if has k then Some (Foreign k)
          else None)"

text \<open>
  \<open>asyncCallCache[k] = a\<close> with a promise \<open>a\<close>: an own property, and for \<open>__proto__\<close> the
  prototype. Either way the promise is then held under \<open>k\<close>.
\<close>

definition cacheSet :: "(string \<rightharpoonup> nat) \<Rightarrow> string \<Rightarrow> nat \<Rightarrow> (string \<rightharpoonup> nat)" where
  "cacheSet cache k a = cache(k \<mapsto> a)"

text \<open>
  \<open>delete obj[k]\<close> removes an own property. \<open>__proto__\<close> is never an own property of these
  objects, so deleting it removes nothing (and leaves the prototype).
\<close>

definition deleteProp :: "(string \<rightharpoonup> nat) \<Rightarrow> string \<Rightarrow> (string \<rightharpoonup> nat)" where
  "deleteProp obj k = (if k = ''__proto__'' then obj else obj(k := None))"

text \<open>
  \<open>pendingCleanCallbacks[k] = t\<close> with a number \<open>t\<close> (the object is declared to hold
  numbers, and the source casts what \<open>setTimeout\<close> returns to the number of the DOM
  version): an own property, but for \<open>__proto__\<close> the accessor ignores a value that is
  not an object.
\<close>

definition recordHandle :: "(string \<rightharpoonup> nat) \<Rightarrow> string \<Rightarrow> nat \<Rightarrow> (string \<rightharpoonup> nat)" where
  "recordHandle obj k t = (if k = ''__proto__'' then obj else obj(k \<mapsto> t))"

subsection \<open>The runtime: timers and dispatch\<close>

text \<open>
  \<open>clearTimeout(h)\<close>. The argument is what \<open>pendingCleanCallbacks[id]\<close> reads: the handle
  recorded as an own property, or no handle (\<open>undefined\<close>, or a function or object
  inherited from \<open>Object.prototype\<close>), and then nothing is cleared. Nor is anything
  cleared by a handle that is not scheduled.
\<close>

definition clearTimeout :: "nat option \<Rightarrow> 'st world \<Rightarrow> 'st world" where
  "clearTimeout h w =
     w\<lparr>trace := trace w @ [ClearTimeout h],
       timers := (case h of None \<Rightarrow> timers w | Some t \<Rightarrow> (timers w)(t := None))\<rparr>"

text \<open>
  \<open>setTimeout(() => dispatch(cleanAsyncState(i)), delay)\<close>: the only callback the module
  schedules. The handle returned is new.
\<close>

definition setTimeout :: "string \<Rightarrow> nat \<Rightarrow> 'st world \<Rightarrow> nat \<times> 'st world" where
  "setTimeout i delay w =
     (nextTimer w,
      w\<lparr>trace := trace w @ [SetTimeout (nextTimer w) i delay],
        timers := (timers w)(nextTimer w \<mapsto> (i, delay)),
        nextTimer := Suc (nextTimer w)\<rparr>)"

text \<open>
  \<open>dispatch(a)\<close>: the store folds the action in with its reducer. The store also
  calls its subscribers before \<open>dispatch\<close> returns; they are not part of this module
  and are not modelled, so whatever a subscriber does appears in a run as operations
  after the function or callback that dispatched, not in the middle of it.
\<close>

definition dispatch :: "('st \<Rightarrow> AsyncAction \<Rightarrow> 'st) \<Rightarrow> AsyncAction \<Rightarrow> 'st world \<Rightarrow> 'st world" where
  "dispatch reducer a w =
     w\<lparr>store := reducer (store w) a, trace := trace w @ [Dispatched a]\<rparr>"

subsection \<open>The identifier generator\<close>

text \<open>The decimal digits of a number, as a template literal prints it.\<close>

fun string_of_nat :: "nat \<Rightarrow> string" where
  "string_of_nat n =
     (if n < 10 then [char_of (48 + n)]
      else string_of_nat (n div 10) @ [char_of (48 + n mod 10)])"

declare string_of_nat.simps [simp del]

text \<open>Reading the digits back.\<close>

definition nat_of_string :: "string \<Rightarrow> nat" where
  "nat_of_string s = foldl (\<lambda>a c. 10 * a + (of_char c - 48)) 0 s"

text \<open>
  \<open>n++\<close> on a JavaScript number that holds a whole number: up to \<open>2^53\<close> the numbers are
  exact, and \<open>2^53 + 1\<close> rounds back to \<open>2^53\<close>.
\<close>

definition MAX_EXACT :: nat where
  "MAX_EXACT = 2 ^ 53"

definition increment :: "nat \<Rightarrow> nat" where
  "increment n = (if n < MAX_EXACT then n + 1 else n)"

text \<open>\<open>genAsyncId\<close>: \<open>`async-${nextAsyncId++}`\<close>.\<close>

definition genAsyncId :: "'st world \<Rightarrow> string \<times> 'st world" where
  "genAsyncId w =
     (''async-'' @ string_of_nat (nextAsyncId w), w\<lparr>nextAsyncId := increment (nextAsyncId w)\<rparr>)"

text \<open>The generator called \<open>n\<close> times in a row.\<close>

fun generate :: "nat \<Rightarrow> 'st world \<Rightarrow> 'st world" where
  "generate 0 w = w"
| "generate (Suc n) w = generate n (snd (genAsyncId w))"

subsection \<open>The action creators\<close>

definition cleanAsyncState :: "string \<Rightarrow> 'st world \<Rightarrow> AsyncAction \<times> 'st world" where
  "cleanAsyncState i w =
     (let w1 = clearTimeout (pendingCleanCallbacks w i) w;
          w2 = w1\<lparr>pendingCleanCallbacks := deleteProp (pendingCleanCallbacks w1) i\<rparr>
      in (CLEAN_ASYNC_STATE i, w2))"

definition releaseAsyncState :: "string \<Rightarrow> AsyncAction" where
  "releaseAsyncState i = RELEASE_ASYNC_STATE i"

definition resetAsyncState :: "string \<Rightarrow> AsyncAction" where
  "resetAsyncState i = RESET_ASYNC_STATE i"

definition retainAsyncState :: "string \<Rightarrow> AsyncAction" where
  "retainAsyncState i = RETAIN_ASYNC_STATE i"

definition finishAsync :: "string \<Rightarrow> AsyncAction" where
  "finishAsync i = ASYNC_FINISHED i"

definition rejectAsync :: "string \<Rightarrow> Error \<Rightarrow> AsyncAction" where
  "rejectAsync i err = ASYNC_REJECTED i err"

definition resolveAsync :: "string \<Rightarrow> AsyncAction" where
  "resolveAsync i = ASYNC_RESOLVED i"

subsection \<open>\<open>startAsync\<close>\<close>

text \<open>
  \<open>asyncId || genAsyncId()\<close>: an id that is \<open>undefined\<close> or the empty string is falsy,
  and only then is the generator called.
\<close>

definition resolveId :: "string option \<Rightarrow> 'st world \<Rightarrow> string \<times> 'st world" where
  "resolveId asyncId w =
     (case asyncId of
        None \<Rightarrow> genAsyncId w
      | Some s \<Rightarrow> if s = [] then genAsyncId w else (s, w))"

definition missing_from_cache :: "string \<Rightarrow> Error" where
  "missing_from_cache i =
     ''Attempted to fork off an existing async call ('' @ i @ '') but promise is missing from cache.''"

text \<open>
  The thunk action of \<open>startAsync(thunk, asyncId)\<close>, run on the state. It returns the
  state together with the value returned or the error thrown: what was done before a
  \<open>throw\<close> stays done. A thunk that throws does so after the started transition was
  dispatched and the timer cleared. The promise \<open>b\<close> at the end of the
  \<open>then\<close>/\<open>catch\<close>/\<open>finally\<close> chain is a new object; its callbacks run later (\<open>settle\<close> and
  \<open>run_finally\<close> below).
\<close>

definition startAsync ::
  "('st \<Rightarrow> AsyncAction \<Rightarrow> 'st) \<Rightarrow> ('st \<Rightarrow> string \<Rightarrow> AsyncStatus) \<Rightarrow> (string \<Rightarrow> bool) \<Rightarrow>
   work \<Rightarrow> string option \<Rightarrow> 'st world \<Rightarrow> (Error + jsval) \<times> 'st world" where
  "startAsync reducer sel has thunk asyncId w =
     (let (i, w0) = resolveId asyncId w;
          existingState = sel (store w0) i
      in if existingState = PENDING then
           (case cacheGet has (asyncCallCache w0) i of
              None \<Rightarrow> (Inl (missing_from_cache i), w0)
            | Some existingPromise \<Rightarrow>
                (Inr existingPromise,
                 if isPromise thunk then w0\<lparr>trace := trace w0 @ [Warned i]\<rparr> else w0))
         else
           let w1 = dispatch reducer (ASYNC_STARTED i) w0;
               w2 = clearTimeout (pendingCleanCallbacks w1 i) w1
           in case thunk of
                Throws err \<Rightarrow> (Inl err, w2\<lparr>trace := trace w2 @ [Threw err]\<rparr>)
              | Promise p \<Rightarrow>
                  let a = nextPromise w2;
                      w4 = w2\<lparr>promises := (promises w2)(a \<mapsto> \<lparr>id_prop = i, settled = None\<rparr>),
                              nextPromise := Suc a\<rparr>;
                      w5 = w4\<lparr>asyncCallCache := cacheSet (asyncCallCache w4) i a\<rparr>
                  in (Inr (PromiseRef a), w5)
              | Thunk p \<Rightarrow>
                  let w3 = w2\<lparr>trace := trace w2 @ [Called p]\<rparr>;
                      a = nextPromise w3;
                      w4 = w3\<lparr>promises := (promises w3)(a \<mapsto> \<lparr>id_prop = i, settled = None\<rparr>),
                              nextPromise := Suc a\<rparr>;
                      w5 = w4\<lparr>asyncCallCache := cacheSet (asyncCallCache w4) i a\<rparr>
                  in (Inr (PromiseRef a), w5))"

subsection \<open>The callbacks of the chain\<close>

text \<open>\<open>.then(res => { dispatch(resolveAsync(id)); return res; })\<close>\<close>

fun then_callback ::
  "('st \<Rightarrow> AsyncAction \<Rightarrow> 'st) \<Rightarrow> string \<Rightarrow> outcome \<times> 'st world \<Rightarrow> outcome \<times> 'st world" where
  "then_callback reducer i (Fulfilled res, w) = (Fulfilled res, dispatch reducer (resolveAsync i) w)"
| "then_callback reducer i (Rejected err, w) = (Rejected err, w)"

text \<open>\<open>.catch(err => { dispatch(rejectAsync(id, err)); throw err; })\<close>\<close>

fun catch_callback ::
  "('st \<Rightarrow> AsyncAction \<Rightarrow> 'st) \<Rightarrow> string \<Rightarrow> outcome \<times> 'st world \<Rightarrow> outcome \<times> 'st world" where
  "catch_callback reducer i (Fulfilled res, w) = (Fulfilled res, w)"
| "catch_callback reducer i (Rejected err, w) = (Rejected err, dispatch reducer (rejectAsync i err) w)"

text \<open>
  \<open>.finally(() => { delete asyncCallCache[id]; dispatch(finishAsync(id));
  pendingCleanCallbacks[id] = setTimeout(..., CLEAN_DELAY); })\<close>: the outcome passes through.
\<close>

definition finally_callback ::
  "('st \<Rightarrow> AsyncAction \<Rightarrow> 'st) \<Rightarrow> string \<Rightarrow> outcome \<times> 'st world \<Rightarrow> outcome \<times> 'st world" where
  "finally_callback reducer i rw =
     (let w = snd rw;
          w1 = w\<lparr>asyncCallCache := deleteProp (asyncCallCache w) i\<rparr>;
          w2 = dispatch reducer (finishAsync i) w1;
          (t, w3) = setTimeout i CLEAN_DELAY w2
      in (fst rw, w3\<lparr>pendingCleanCallbacks := recordHandle (pendingCleanCallbacks w3) i t\<rparr>))"

text \<open>
  The underlying promise of the handle \<open>a\<close> settles with \<open>out\<close>: of the first two
  callbacks the one that applies runs, \<open>then\<close> on a value and \<open>catch\<close> on an error. The
  \<open>finally\<close> callback is a separate callback and runs later, so the handle is noted as
  \<open>reported\<close>. A handle that does not exist, has reported or has settled has no such
  callback left to run.
\<close>

definition settle :: "('st \<Rightarrow> AsyncAction \<Rightarrow> 'st) \<Rightarrow> nat \<Rightarrow> outcome \<Rightarrow> 'st world \<Rightarrow> 'st world" where
  "settle reducer a out w =
     (case promises w a of
        None \<Rightarrow> w
      | Some b \<Rightarrow>
          if settled b = None \<and> reported w a = None then
            let (r, w') = catch_callback reducer (id_prop b) (then_callback reducer (id_prop b) (out, w))
            in w'\<lparr>reported := (reported w')(a \<mapsto> r)\<rparr>
          else w)"

text \<open>
  The \<open>finally\<close> callback of the reported handle \<open>a\<close> runs, and the handle settles with
  what comes out of the chain. It returns that outcome, which is what a caller awaiting
  the handle sees. A handle that has not reported has no \<open>finally\<close> callback ready to run.
  (Bluebird also runs the \<open>finally\<close> callback of a promise that is cancelled, once
  cancellation has been switched on in its configuration; it is off by default, and
  cancelled promises are not modelled.)
\<close>

definition run_finally ::
  "('st \<Rightarrow> AsyncAction \<Rightarrow> 'st) \<Rightarrow> nat \<Rightarrow> 'st world \<Rightarrow> outcome option \<times> 'st world" where
  "run_finally reducer a w =
     (case reported w a of
        None \<Rightarrow> (None, w)
      | Some r \<Rightarrow>
          (case promises w a of
             None \<Rightarrow> (None, w)
           | Some b \<Rightarrow>
               let (r', w') = finally_callback reducer (id_prop b)
                                (r, w\<lparr>reported := (reported w)(a := None)\<rparr>)
               in (Some r', w'\<lparr>promises := (promises w')(a \<mapsto> b\<lparr>settled := Some r'\<rparr>)\<rparr>)))"

text \<open>
  The timer \<open>t\<close> fires: the runtime drops it and runs its callback,
  \<open>dispatch(actionCreators.cleanAsyncState(id))\<close>. A timer that is not scheduled does not fire.
\<close>

definition fire :: "('st \<Rightarrow> AsyncAction \<Rightarrow> 'st) \<Rightarrow> nat \<Rightarrow> 'st world \<Rightarrow> 'st world" where
  "fire reducer t w =
     (case timers w t of
        None \<Rightarrow> w
      | Some (i, d) \<Rightarrow>
          let w1 = w\<lparr>timers := (timers w)(t := None)\<rparr>;
              (a, w2) = cleanAsyncState i w1
          in dispatch reducer a w2)"

subsection \<open>Operations and runs\<close>

text \<open>
  What can happen to the registry, one step at a time: a caller runs \<open>startAsync\<close>, the
  promise behind a handle settles, the \<open>finally\<close> callback of a handle runs, a timer
  fires, or a caller dispatches what one of the seven exported action creators returns.
\<close>

datatype op =
    Start work "string option"
  | Settle nat outcome
  | Finally nat
  | Fire nat
  | Clean string
  | Release string
  | Reset string
  | Retain string
  | Finish string
  | Reject string Error
  | Resolve string

fun exec ::
  "('st \<Rightarrow> AsyncAction \<Rightarrow> 'st) \<Rightarrow> ('st \<Rightarrow> string \<Rightarrow> AsyncStatus) \<Rightarrow> (string \<Rightarrow> bool) \<Rightarrow>
   op \<Rightarrow> 'st world \<Rightarrow> 'st world" where
  "exec reducer sel has (Start thunk asyncId) w = snd (startAsync reducer sel has thunk asyncId w)"
| "exec reducer sel has (Settle a out) w = settle reducer a out w"
| "exec reducer sel has (Finally a) w = snd (run_finally reducer a w)"
| "exec reducer sel has (Fire t) w = fire reducer t w"
| "exec reducer sel has (Clean i) w =
     dispatch reducer (fst (cleanAsyncState i w)) (snd (cleanAsyncState i w))"
| "exec reducer sel has (Release i) w = dispatch reducer (releaseAsyncState i) w"
| "exec reducer sel has (Reset i) w = dispatch reducer (resetAsyncState i) w"
| "exec reducer sel has (Retain i) w = dispatch reducer (retainAsyncState i) w"
| "exec reducer sel has (Finish i) w = dispatch reducer (finishAsync i) w"
| "exec reducer sel has (Reject i err) w = dispatch reducer (rejectAsync i err) w"
| "exec reducer sel has (Resolve i) w = dispatch reducer (resolveAsync i) w"

fun run ::
  "('st \<Rightarrow> AsyncAction \<Rightarrow> 'st) \<Rightarrow> ('st \<Rightarrow> string \<Rightarrow> AsyncStatus) \<Rightarrow> (string \<Rightarrow> bool) \<Rightarrow>
   op list \<Rightarrow> 'st world \<Rightarrow> 'st world" where
  "run reducer sel has [] w = w"
| "run reducer sel has (x # xs) w = run reducer sel has xs (exec reducer sel has x w)"


text \<open>The state when the module is loaded, over a store \<open>st\<close>.\<close>

definition init :: "'st \<Rightarrow> 'st world" where
  "init st =
     \<lparr>store = st, trace = [], pendingCleanCallbacks = Map.empty, asyncCallCache = Map.empty,
      nextAsyncId = 0, timers = Map.empty, nextTimer = 1, promises = Map.empty, nextPromise = 0,
      reported = Map.empty\<rparr>"

subsection \<open>The store\<close>

text \<open>
  Modelled from the spec: the record the store keeps for an id (\<open>AsyncCallRecord\<close>), the
  selector \<open>selectAsyncStatus\<close> of \<open>selectors/async\<close> and the reducer of \<open>reducers/async\<close>;
  none of the three is among the sources. The reducer follows the transition table of the
  spec (an event in a state the table does not list changes nothing), its retain and
  release contract, and \<open>clean\<close> removing the record whatever the retain count. An id with
  no record reads as \<open>NOT_STARTED\<close>.
\<close>

record AsyncCallRecord =
  status :: AsyncStatus
  retainCount :: nat
  error :: "Error option"

type_synonym AsyncState = "string \<rightharpoonup> AsyncCallRecord"

definition selectAsyncStatus :: "AsyncState \<Rightarrow> string \<Rightarrow> AsyncStatus" where
  "selectAsyncStatus st i = (case st i of None \<Rightarrow> NOT_STARTED | Some r \<Rightarrow> status r)"

definition record_of :: "AsyncState \<Rightarrow> string \<Rightarrow> AsyncCallRecord" where
  "record_of st i =
     (case st i of
        None \<Rightarrow> \<lparr>status = NOT_STARTED, retainCount = 0, error = None\<rparr>
      | Some r \<Rightarrow> r)"

fun asyncReducer :: "AsyncState \<Rightarrow> AsyncAction \<Rightarrow> AsyncState" where
  "asyncReducer st (ASYNC_STARTED i) =
     (let r = record_of st i
      in if status r = NOT_STARTED \<or> status r = FINISHED then st(i \<mapsto> r\<lparr>status := PENDING\<rparr>) else st)"
| "asyncReducer st (ASYNC_RESOLVED i) =
     (let r = record_of st i
      in if status r = PENDING then st(i \<mapsto> r\<lparr>status := RESOLVED\<rparr>) else st)"
| "asyncReducer st (ASYNC_REJECTED i err) =
     (let r = record_of st i
      in if status r = PENDING then st(i \<mapsto> r\<lparr>status := REJECTED, error := Some err\<rparr>) else st)"
| "asyncReducer st (ASYNC_FINISHED i) =
     (let r = record_of st i
      in if status r = PENDING \<or> status r = RESOLVED \<or> status r = REJECTED
         then st(i \<mapsto> r\<lparr>status := FINISHED, error := None\<rparr>) else st)"
| "asyncReducer st (RESET_ASYNC_STATE i) =
     (let r = record_of st i
      in if status r = RESOLVED \<or> status r = REJECTED \<or> status r = FINISHED
         then st(i \<mapsto> r\<lparr>status := NOT_STARTED, error := None\<rparr>) else st)"
| "asyncReducer st (CLEAN_ASYNC_STATE i) = st(i := None)"
| "asyncReducer st (RETAIN_ASYNC_STATE i) =
     (let r = record_of st i in st(i \<mapsto> r\<lparr>retainCount := retainCount r + 1\<rparr>))"
| "asyncReducer st (RELEASE_ASYNC_STATE i) =
     (let r = record_of st i;
          n = retainCount r - 1
      in if n = 0 \<and> (status r = RESOLVED \<or> status r = REJECTED \<or> status r = FINISHED)
         then st(i := None)
         else st(i \<mapsto> r\<lparr>retainCount := n\<rparr>))"

text \<open>
  Modelled from the spec: the store before anything was dispatched. It holds no record,
  so every id reads as \<open>NOT_STARTED\<close>.
\<close>

definition initialState :: AsyncState where
  "initialState = Map.empty"

text \<open>
  The methods of a Bluebird promise that this module calls. The library has more; the
  properties below hold whatever names a promise answers to, and the runs that are
  evaluated use these.
\<close>

definition promiseNames :: "string \<Rightarrow> bool" where
  "promiseNames k \<longleftrightarrow> k \<in> set [''then'', ''catch'', ''finally'']"

subsection \<open>Invariants of a run\<close>



text \<open>
  Facts that hold of every state a run reaches; they are stated here and proved below.
  Every promise on the heap has a number below the next one to be made, only a promise
  on the heap has reported, and one that has settled has no report left. The trace holds
  the history of every handle as a subsequence. Every scheduled timer was armed right
  after a finished transition of its id was dispatched, and every timer that was ever
  armed has a number below the next one. The last one holds of the states reached
  without a thunk that throws, over the store modelled above from the spec: an id that
  reads as \<open>PENDING\<close> has an entry in the call cache.
\<close>

definition handles_known :: "'st world \<Rightarrow> bool" where
  "handles_known w \<longleftrightarrow>
     (\<forall>a. promises w a = None \<longrightarrow> reported w a = None)
     \<and> (\<forall>a b. promises w a = Some b \<longrightarrow>
          a < nextPromise w \<and> (settled b \<noteq> None \<longrightarrow> reported w a = None))"




section \<open>Properties\<close>

subsection \<open>What each function leaves alone\<close>

lemmas model_defs =
  init_def initialState_def startAsync_def resolveId_def genAsyncId_def increment_def MAX_EXACT_def
  dispatch_def clearTimeout_def setTimeout_def settle_def run_finally_def finally_callback_def fire_def
  cleanAsyncState_def selectAsyncStatus_def record_of_def finishAsync_def resolveAsync_def
  rejectAsync_def releaseAsyncState_def resetAsyncState_def retainAsyncState_def CLEAN_DELAY_def
  cacheGet_def cacheSet_def deleteProp_def recordHandle_def objectPrototypeNames_def promiseNames_def
  Let_def split_def

lemma resolveId_fst:
  "fst (resolveId asyncId w) =
     (case asyncId of
        None \<Rightarrow> ''async-'' @ string_of_nat (nextAsyncId w)
      | Some s \<Rightarrow> if s = [] then ''async-'' @ string_of_nat (nextAsyncId w) else s)"
  by (simp add: resolveId_def genAsyncId_def split: option.split)


lemma resolveId_fields [simp]:
  "store (snd (resolveId asyncId w)) = store w"
  "trace (snd (resolveId asyncId w)) = trace w"
  "pendingCleanCallbacks (snd (resolveId asyncId w)) = pendingCleanCallbacks w"
  "asyncCallCache (snd (resolveId asyncId w)) = asyncCallCache w"
  "timers (snd (resolveId asyncId w)) = timers w"
  "nextTimer (snd (resolveId asyncId w)) = nextTimer w"
  "promises (snd (resolveId asyncId w)) = promises w"
  "nextPromise (snd (resolveId asyncId w)) = nextPromise w"
  "reported (snd (resolveId asyncId w)) = reported w"
  by (simp_all add: resolveId_def genAsyncId_def split: option.split)

text \<open>A call that finds its id pending changes nothing but the console and the counter.\<close>

lemma startAsync_pending:
  assumes "sel (store w) (fst (resolveId asyncId w)) = PENDING"
  shows "store (snd (startAsync reducer sel has thunk asyncId w)) = store w"
    and "timers (snd (startAsync reducer sel has thunk asyncId w)) = timers w"
    and "pendingCleanCallbacks (snd (startAsync reducer sel has thunk asyncId w)) = pendingCleanCallbacks w"
    and "asyncCallCache (snd (startAsync reducer sel has thunk asyncId w)) = asyncCallCache w"
    and "promises (snd (startAsync reducer sel has thunk asyncId w)) = promises w"
    and "nextPromise (snd (startAsync reducer sel has thunk asyncId w)) = nextPromise w"
    and "nextTimer (snd (startAsync reducer sel has thunk asyncId w)) = nextTimer w"
    and "reported (snd (startAsync reducer sel has thunk asyncId w)) = reported w"
    and "\<exists>evs. trace (snd (startAsync reducer sel has thunk asyncId w)) = trace w @ evs"
  using assms
  by (simp_all add: startAsync_def Let_def split_def split: option.split)

text \<open>
  A call that does not find its id pending: what it does before it calls the thunk, and
  what calling the thunk adds to the trace.
\<close>

lemma startAsync_fresh:
  assumes "sel (store w) (fst (resolveId asyncId w)) \<noteq> PENDING"
  shows "store (snd (startAsync reducer sel has thunk asyncId w)) =
           reducer (store w) (ASYNC_STARTED (fst (resolveId asyncId w)))"
    and "trace (snd (startAsync reducer sel has thunk asyncId w)) =
           trace w @ [Dispatched (ASYNC_STARTED (fst (resolveId asyncId w))),
                      ClearTimeout (pendingCleanCallbacks w (fst (resolveId asyncId w)))]
             @ (case thunk of Promise p \<Rightarrow> [] | Thunk p \<Rightarrow> [Called p] | Throws err \<Rightarrow> [Threw err])"
    and "timers (snd (startAsync reducer sel has thunk asyncId w)) =
           (case pendingCleanCallbacks w (fst (resolveId asyncId w)) of
              None \<Rightarrow> timers w | Some t \<Rightarrow> (timers w)(t := None))"
    and "pendingCleanCallbacks (snd (startAsync reducer sel has thunk asyncId w)) = pendingCleanCallbacks w"
    and "nextTimer (snd (startAsync reducer sel has thunk asyncId w)) = nextTimer w"
    and "reported (snd (startAsync reducer sel has thunk asyncId w)) = reported w"
  using assms
  by (simp_all add: startAsync_def Let_def split_def dispatch_def clearTimeout_def
      split: work.split option.split)

text \<open>The thunk returns, or a promise was passed: the new handle.\<close>

lemma startAsync_returns:
  assumes "sel (store w) (fst (resolveId asyncId w)) \<noteq> PENDING" and "\<not> throws thunk"
  shows "fst (startAsync reducer sel has thunk asyncId w) = Inr (PromiseRef (nextPromise w))"
    and "asyncCallCache (snd (startAsync reducer sel has thunk asyncId w)) =
           (asyncCallCache w)(fst (resolveId asyncId w) \<mapsto> nextPromise w)"
    and "promises (snd (startAsync reducer sel has thunk asyncId w)) =
           (promises w)(nextPromise w \<mapsto> \<lparr>id_prop = fst (resolveId asyncId w), settled = None\<rparr>)"
    and "nextPromise (snd (startAsync reducer sel has thunk asyncId w)) = Suc (nextPromise w)"
  using assms
  by (cases thunk;
      simp add: startAsync_def Let_def split_def dispatch_def clearTimeout_def cacheSet_def
        split: option.split)+

text \<open>The thunk throws: no handle.\<close>

lemma startAsync_thrown:
  assumes "sel (store w) (fst (resolveId asyncId w)) \<noteq> PENDING"
  shows "fst (startAsync reducer sel has (Throws err) asyncId w) = Inl err"
    and "asyncCallCache (snd (startAsync reducer sel has (Throws err) asyncId w)) = asyncCallCache w"
    and "promises (snd (startAsync reducer sel has (Throws err) asyncId w)) = promises w"
    and "nextPromise (snd (startAsync reducer sel has (Throws err) asyncId w)) = nextPromise w"
  using assms
  by (simp_all add: startAsync_def Let_def split_def dispatch_def clearTimeout_def
      split: option.split)


lemma settle_waiting:
  assumes "promises w a = Some b" and "settled b = None" and "reported w a = None"
  shows "store (settle reducer a out w) =
           reducer (store w)
              (case out of Fulfilled res \<Rightarrow> ASYNC_RESOLVED (id_prop b)
               | Rejected err \<Rightarrow> ASYNC_REJECTED (id_prop b) err)"
    and "trace (settle reducer a out w) =
           trace w @ [Dispatched (case out of Fulfilled res \<Rightarrow> ASYNC_RESOLVED (id_prop b)
                                  | Rejected err \<Rightarrow> ASYNC_REJECTED (id_prop b) err)]"
    and "reported (settle reducer a out w) = (reported w)(a \<mapsto> out)"
    and "timers (settle reducer a out w) = timers w"
    and "pendingCleanCallbacks (settle reducer a out w) = pendingCleanCallbacks w"
    and "asyncCallCache (settle reducer a out w) = asyncCallCache w"
    and "promises (settle reducer a out w) = promises w"
    and "nextPromise (settle reducer a out w) = nextPromise w"
    and "nextTimer (settle reducer a out w) = nextTimer w"
  using assms
  by (cases out; simp add: settle_def dispatch_def Let_def split_def resolveAsync_def rejectAsync_def)+


lemma run_finally_ready:
  assumes "reported w a = Some r" and "promises w a = Some b"
  shows "fst (run_finally reducer a w) = Some r"
    and "store (snd (run_finally reducer a w)) = reducer (store w) (ASYNC_FINISHED (id_prop b))"
    and "trace (snd (run_finally reducer a w)) =
           trace w @ [Dispatched (ASYNC_FINISHED (id_prop b)),
                      SetTimeout (nextTimer w) (id_prop b) CLEAN_DELAY]"
    and "timers (snd (run_finally reducer a w)) = (timers w)(nextTimer w \<mapsto> (id_prop b, CLEAN_DELAY))"
    and "pendingCleanCallbacks (snd (run_finally reducer a w)) =
           recordHandle (pendingCleanCallbacks w) (id_prop b) (nextTimer w)"
    and "asyncCallCache (snd (run_finally reducer a w)) = deleteProp (asyncCallCache w) (id_prop b)"
    and "promises (snd (run_finally reducer a w)) = (promises w)(a \<mapsto> b\<lparr>settled := Some r\<rparr>)"
    and "reported (snd (run_finally reducer a w)) = (reported w)(a := None)"
    and "nextPromise (snd (run_finally reducer a w)) = nextPromise w"
    and "nextTimer (snd (run_finally reducer a w)) = Suc (nextTimer w)"
  using assms
  by (simp_all add: run_finally_def finally_callback_def setTimeout_def dispatch_def Let_def split_def
      finishAsync_def)

lemma fire_idle: "timers w t = None \<Longrightarrow> fire reducer t w = w"
  by (simp add: fire_def)

lemma fire_scheduled:
  assumes "timers w t = Some (i, d)"
  shows "store (fire reducer t w) = reducer (store w) (CLEAN_ASYNC_STATE i)"
    and "trace (fire reducer t w) =
           trace w @ [ClearTimeout (pendingCleanCallbacks w i), Dispatched (CLEAN_ASYNC_STATE i)]"
    and "timers (fire reducer t w) =
           (case pendingCleanCallbacks w i of None \<Rightarrow> (timers w)(t := None)
            | Some t' \<Rightarrow> (timers w)(t := None, t' := None))"
    and "pendingCleanCallbacks (fire reducer t w) = deleteProp (pendingCleanCallbacks w) i"
    and "asyncCallCache (fire reducer t w) = asyncCallCache w"
    and "promises (fire reducer t w) = promises w"
    and "reported (fire reducer t w) = reported w"
    and "nextPromise (fire reducer t w) = nextPromise w"
    and "nextTimer (fire reducer t w) = nextTimer w"
  using assms
  by (simp_all add: fire_def cleanAsyncState_def clearTimeout_def dispatch_def Let_def split_def
      split: option.split)

lemma cleanAsyncState_fields [simp]:
  "fst (cleanAsyncState i w) = CLEAN_ASYNC_STATE i"
  "store (snd (cleanAsyncState i w)) = store w"
  "trace (snd (cleanAsyncState i w)) = trace w @ [ClearTimeout (pendingCleanCallbacks w i)]"
  "timers (snd (cleanAsyncState i w)) =
     (case pendingCleanCallbacks w i of None \<Rightarrow> timers w | Some t \<Rightarrow> (timers w)(t := None))"
  "pendingCleanCallbacks (snd (cleanAsyncState i w)) = deleteProp (pendingCleanCallbacks w) i"
  "asyncCallCache (snd (cleanAsyncState i w)) = asyncCallCache w"
  "promises (snd (cleanAsyncState i w)) = promises w"
  "reported (snd (cleanAsyncState i w)) = reported w"
  "nextPromise (snd (cleanAsyncState i w)) = nextPromise w"
  "nextTimer (snd (cleanAsyncState i w)) = nextTimer w"
  by (simp_all add: cleanAsyncState_def clearTimeout_def Let_def split: option.split)

lemma dispatch_fields [simp]:
  "store (dispatch reducer act w) = reducer (store w) act"
  "trace (dispatch reducer act w) = trace w @ [Dispatched act]"
  "timers (dispatch reducer act w) = timers w"
  "pendingCleanCallbacks (dispatch reducer act w) = pendingCleanCallbacks w"
  "asyncCallCache (dispatch reducer act w) = asyncCallCache w"
  "promises (dispatch reducer act w) = promises w"
  "reported (dispatch reducer act w) = reported w"
  "nextPromise (dispatch reducer act w) = nextPromise w"
  "nextTimer (dispatch reducer act w) = nextTimer w"
  "nextAsyncId (dispatch reducer act w) = nextAsyncId w"
  by (simp_all add: dispatch_def)

text \<open>A handle either waits for its first callback or the step does nothing.\<close>

lemma settle_cases:
  obtains (waiting) b where "promises w a = Some b" "settled b = None" "reported w a = None"
  | (idle) "settle reducer a out w = w"
proof (cases "\<exists>b. promises w a = Some b \<and> settled b = None \<and> reported w a = None")
  case True
  then show ?thesis using waiting by blast
next
  case False
  then have "settle reducer a out w = w"
    by (cases "promises w a") (auto simp add: settle_def)
  then show ?thesis by (rule idle)
qed

lemma run_finally_cases:
  obtains (ready) r b where "reported w a = Some r" "promises w a = Some b"
  | (idle) "run_finally reducer a w = (None, w)"
proof (cases "\<exists>r b. reported w a = Some r \<and> promises w a = Some b")
  case True
  then show ?thesis using ready by blast
next
  case False
  then have "run_finally reducer a w = (None, w)"
    by (cases "reported w a"; cases "promises w a") (auto simp add: run_finally_def)
  then show ?thesis by (rule idle)
qed

text \<open>Every operation only adds to the trace.\<close>

lemma exec_trace: "\<exists>evs. trace (exec reducer sel has x w) = trace w @ evs"
proof (cases x)
  case (Start thunk asyncId)
  then show ?thesis
    using startAsync_pending(9) [of sel w asyncId reducer has thunk]
      startAsync_fresh(2) [of sel w asyncId reducer has thunk]
    by (cases "sel (store w) (fst (resolveId asyncId w)) = PENDING") auto
next
  case (Settle a out)
  show ?thesis
  proof (cases rule: settle_cases [where w = w and a = a and reducer = reducer and out = out])
    case (waiting b)
    then show ?thesis using Settle by (simp add: settle_waiting(2))
  next
    case idle
    then show ?thesis using Settle by simp
  qed
next
  case (Finally a)
  show ?thesis
  proof (cases rule: run_finally_cases [where w = w and a = a and reducer = reducer])
    case (ready r b)
    then show ?thesis using Finally by (simp add: run_finally_ready(3))
  next
    case idle
    then show ?thesis using Finally by simp
  qed
next
  case (Fire t)
  then show ?thesis
    by (cases "timers w t") (auto simp add: fire_idle fire_scheduled(2))
qed simp_all

subsection \<open>Identifiers\<close>

lemma nat_of_string_of_nat: "nat_of_string (string_of_nat n) = n"
proof (induction n rule: string_of_nat.induct)
  case (1 n)
  show ?case
  proof (cases "n < 10")
    case True
    then show ?thesis by (simp add: string_of_nat.simps [of n] nat_of_string_def)
  next
    case False
    with 1 have "nat_of_string (string_of_nat (n div 10)) = n div 10" by simp
    with False show ?thesis
      by (simp add: string_of_nat.simps [of n] nat_of_string_def)
  qed
qed

lemma string_of_nat_inj: "string_of_nat m = string_of_nat n \<Longrightarrow> m = n"
  by (metis nat_of_string_of_nat)

lemma string_of_nat_digits:
  "string_of_nat 0 = ''0''" "string_of_nat (Suc 0) = ''1''" "string_of_nat 2 = ''2''"
  by code_simp+

lemma increment_ge: "n \<le> increment n"
  by (simp add: increment_def)

lemma genAsyncId_nextAsyncId: "nextAsyncId (snd (genAsyncId w)) = increment (nextAsyncId w)"
  by (simp add: genAsyncId_def)

lemma startAsync_nextAsyncId:
  "nextAsyncId w \<le> nextAsyncId (snd (startAsync reducer sel has thunk asyncId w))"
  by (simp add: startAsync_def resolveId_def genAsyncId_def increment_ge dispatch_def clearTimeout_def
      Let_def split_def split: option.split work.split)

lemma settle_nextAsyncId: "nextAsyncId (settle reducer a out w) = nextAsyncId w"
  by (cases out) (simp_all add: settle_def dispatch_def Let_def split_def split: option.split)

lemma run_finally_nextAsyncId: "nextAsyncId (snd (run_finally reducer a w)) = nextAsyncId w"
  by (simp add: run_finally_def finally_callback_def setTimeout_def dispatch_def Let_def split_def
      split: option.split)

lemma fire_nextAsyncId: "nextAsyncId (fire reducer t w) = nextAsyncId w"
  by (simp add: fire_def cleanAsyncState_def clearTimeout_def dispatch_def Let_def split_def split: option.split)

lemma exec_nextAsyncId: "nextAsyncId w \<le> nextAsyncId (exec reducer sel has x w)"
  by (cases x) (simp_all add: startAsync_nextAsyncId settle_nextAsyncId run_finally_nextAsyncId
      fire_nextAsyncId cleanAsyncState_def clearTimeout_def Let_def)

lemma run_nextAsyncId: "nextAsyncId w \<le> nextAsyncId (run reducer sel has xs w)"
proof (induction xs arbitrary: w)
  case Nil
  show ?case by simp
next
  case (Cons x xs)
  have "nextAsyncId w \<le> nextAsyncId (exec reducer sel has x w)" by (rule exec_nextAsyncId)
  also have "\<dots> \<le> nextAsyncId (run reducer sel has xs (exec reducer sel has x w))" by (rule Cons.IH)
  finally show ?case by simp
qed

text \<open>After \<open>n\<close> calls the counter has counted to \<open>n\<close>, or to the limit.\<close>

lemma generate_nextAsyncId:
  "nextAsyncId w \<le> MAX_EXACT \<Longrightarrow> nextAsyncId (generate n w) = min (nextAsyncId w + n) MAX_EXACT"
proof (induction n arbitrary: w)
  case 0
  then show ?case by simp
next
  case (Suc n)
  have "nextAsyncId (snd (genAsyncId w)) \<le> MAX_EXACT"
    using Suc.prems by (simp add: genAsyncId_def increment_def)
  then have "nextAsyncId (generate n (snd (genAsyncId w)))
      = min (nextAsyncId (snd (genAsyncId w)) + n) MAX_EXACT"
    by (rule Suc.IH)
  then show ?case using Suc.prems by (simp add: genAsyncId_def increment_def)
qed

text \<open>
  The generator is called \<open>2^53\<close> times from the initial state. The two calls that
  follow make the same identifier.
\<close>

theorem generator_repeats_at_limit:
  "nextAsyncId (generate MAX_EXACT (init initialState)) = 9007199254740992
   \<and> fst (genAsyncId (snd (genAsyncId (generate MAX_EXACT (init initialState)))))
     = fst (genAsyncId (generate MAX_EXACT (init initialState)))"
proof -
  have "nextAsyncId (init initialState) \<le> MAX_EXACT" by (simp add: init_def)
  then have n: "nextAsyncId (generate MAX_EXACT (init initialState)) = MAX_EXACT"
    using generate_nextAsyncId [of "init initialState" MAX_EXACT] by (simp add: init_def)
  then have "nextAsyncId (snd (genAsyncId (generate MAX_EXACT (init initialState)))) = MAX_EXACT"
    by (simp add: genAsyncId_def increment_def)
  with n show ?thesis by (simp add: genAsyncId_def MAX_EXACT_def)
qed

text \<open>
  Claim C8. An identifier made by the generator is the fixed prefix \<open>async-\<close> followed by
  the decimal digits of the counter. Making it changes nothing but the counter, which
  goes up by one as long as it is below \<open>2^53\<close> and stays where it is from there on. Two
  calls of the generator make the same identifier exactly when they find the same counter
  value, and no operation ever lowers the counter. So whatever the registry does after a
  call of the generator that found the counter below \<open>2^53\<close> (any run of operations,
  further calls of the generator among them), the counter stays above the value that call
  used and a later call makes a different identifier.
\<close>

theorem genAsyncId_unique:
  "fst (genAsyncId (w :: 'st world)) = ''async-'' @ string_of_nat (nextAsyncId w)
   \<and> snd (genAsyncId w) =
       w\<lparr>nextAsyncId := (if nextAsyncId w < 2 ^ 53 then nextAsyncId w + 1 else nextAsyncId w)\<rparr>
   \<and> (fst (genAsyncId w) = fst (genAsyncId (w' :: 'st world))) = (nextAsyncId w = nextAsyncId w')
   \<and> nextAsyncId w \<le> nextAsyncId (snd (startAsync reducer sel has thunk asyncId w))
   \<and> nextAsyncId w \<le> nextAsyncId (run reducer sel has xs w)
   \<and> (nextAsyncId w < 2 ^ 53 \<longrightarrow>
        nextAsyncId w < nextAsyncId (run reducer sel has xs (snd (genAsyncId w)))
      \<and> fst (genAsyncId (run reducer sel has xs (snd (genAsyncId w)))) \<noteq> fst (genAsyncId w))"
proof -
  have inj: "(fst (genAsyncId u) = fst (genAsyncId v)) = (nextAsyncId u = nextAsyncId v)"
    for u v :: "'st world"
    using string_of_nat_inj by (auto simp add: genAsyncId_def)
  have later: "nextAsyncId w < nextAsyncId (run reducer sel has xs (snd (genAsyncId w)))
      \<and> fst (genAsyncId (run reducer sel has xs (snd (genAsyncId w)))) \<noteq> fst (genAsyncId w)"
    if below: "nextAsyncId w < 2 ^ 53"
  proof -
    have "nextAsyncId (snd (genAsyncId w)) \<le> nextAsyncId (run reducer sel has xs (snd (genAsyncId w)))"
      by (rule run_nextAsyncId)
    then have lt: "nextAsyncId w < nextAsyncId (run reducer sel has xs (snd (genAsyncId w)))"
      using below by (simp add: genAsyncId_def increment_def MAX_EXACT_def)
    then have "fst (genAsyncId (run reducer sel has xs (snd (genAsyncId w)))) \<noteq> fst (genAsyncId w)"
      using inj [of "run reducer sel has xs (snd (genAsyncId w))" w] by simp
    with lt show ?thesis by simp
  qed
  have step: "snd (genAsyncId w) =
       w\<lparr>nextAsyncId := (if nextAsyncId w < 2 ^ 53 then nextAsyncId w + 1 else nextAsyncId w)\<rparr>"
    by (simp add: genAsyncId_def increment_def MAX_EXACT_def)
  have pre: "fst (genAsyncId w) = ''async-'' @ string_of_nat (nextAsyncId w)"
    by (simp add: genAsyncId_def)
  from pre step inj [of w w'] later startAsync_nextAsyncId [of w reducer sel has thunk asyncId]
    run_nextAsyncId [of w reducer sel has xs]
  show ?thesis by blast
qed

text \<open>
  Witness: on the initial state the generator makes an identifier, a call is started without
  an id (which makes the next one), and the generator is called again.
\<close>

theorem genAsyncId_unique_witness:
  "fst (genAsyncId (run asyncReducer selectAsyncStatus promiseNames [Start (Thunk 0) None]
      (snd (genAsyncId (init initialState)))))
   \<noteq> fst (genAsyncId (init initialState))"
proof -
  have "nextAsyncId (init initialState) < 2 ^ 53" by (simp add: init_def)
  with genAsyncId_unique
    [where w = "init initialState" and reducer = asyncReducer and sel = selectAsyncStatus
       and has = promiseNames and xs = "[Start (Thunk 0) None]"]
  show ?thesis by blast
qed

subsection \<open>\<open>cleanAsyncState\<close>\<close>

text \<open>
  Two runs that leave a timer scheduled that \<open>pendingCleanCallbacks\<close> does not record. In
  the first, \<open>a\<close> was cleaned by hand while pending and started again, and both calls have
  finished: timers 1 and 2 clean \<open>a\<close> and only 2 is recorded. In the second, a call under
  \<open>__proto__\<close> has finished: its timer 1 is recorded nowhere. \<open>cleanAsyncState\<close> leaves
  timer 1 scheduled in both.
\<close>

theorem unrecorded_timer_survives_clean:
  "timers (run asyncReducer selectAsyncStatus promiseNames
      [Start (Thunk 0) (Some ''a''), Clean ''a'', Start (Thunk 1) (Some ''a''),
       Settle 0 (Fulfilled 7), Finally 0, Settle 1 (Fulfilled 8), Finally 1] (init initialState)) 1
     = Some (''a'', 1000)
   \<and> timers (snd (cleanAsyncState ''a'' (run asyncReducer selectAsyncStatus promiseNames
      [Start (Thunk 0) (Some ''a''), Clean ''a'', Start (Thunk 1) (Some ''a''),
       Settle 0 (Fulfilled 7), Finally 0, Settle 1 (Fulfilled 8), Finally 1] (init initialState)))) 1
     = Some (''a'', 1000)
   \<and> timers (run asyncReducer selectAsyncStatus promiseNames
      [Start (Thunk 0) (Some ''__proto__''), Settle 0 (Fulfilled 7), Finally 0] (init initialState)) 1
     = Some (''__proto__'', 1000)
   \<and> timers (snd (cleanAsyncState ''__proto__'' (run asyncReducer selectAsyncStatus promiseNames
      [Start (Thunk 0) (Some ''__proto__''), Settle 0 (Fulfilled 7), Finally 0] (init initialState)))) 1
     = Some (''__proto__'', 1000)"
  by code_simp

text \<open>
  Claim C10. \<open>cleanAsyncState(id)\<close> returns the \<open>CLEAN_ASYNC_STATE\<close> action of the id,
  cancels the timer that \<open>pendingCleanCallbacks\<close> records under the id, and no other
  timer, and deletes the id's entry of \<open>pendingCleanCallbacks\<close> (under \<open>__proto__\<close> there is
  nothing to delete). It never reads the store, so the retain count plays no part: over
  any other store it does the same. Applied a second time it returns the same action and
  leaves the timers and \<open>pendingCleanCallbacks\<close> as the first application left them.
\<close>

theorem cleanAsyncState_idempotent:
  "fst (cleanAsyncState i w) = CLEAN_ASYNC_STATE i
   \<and> timers (snd (cleanAsyncState i w)) =
       (case pendingCleanCallbacks w i of None \<Rightarrow> timers w | Some t \<Rightarrow> (timers w)(t := None))
   \<and> (\<forall>t. pendingCleanCallbacks w i \<noteq> Some t \<longrightarrow> timers (snd (cleanAsyncState i w)) t = timers w t)
   \<and> pendingCleanCallbacks (snd (cleanAsyncState i w)) =
       (if i = ''__proto__'' then pendingCleanCallbacks w else (pendingCleanCallbacks w)(i := None))
   \<and> cleanAsyncState i (w\<lparr>store := st\<rparr>) =
       (fst (cleanAsyncState i w), (snd (cleanAsyncState i w))\<lparr>store := st\<rparr>)
   \<and> fst (cleanAsyncState i (snd (cleanAsyncState i w))) = fst (cleanAsyncState i w)
   \<and> timers (snd (cleanAsyncState i (snd (cleanAsyncState i w)))) = timers (snd (cleanAsyncState i w))
   \<and> pendingCleanCallbacks (snd (cleanAsyncState i (snd (cleanAsyncState i w))))
       = pendingCleanCallbacks (snd (cleanAsyncState i w))"
  by (auto simp add: cleanAsyncState_def clearTimeout_def deleteProp_def Let_def split: option.split)

text \<open>
  Witness: \<open>a\<close> has finished and its timer 1 is recorded; \<open>cleanAsyncState\<close> cancels it
  and deletes the record.
\<close>

theorem cleanAsyncState_idempotent_witness:
  "pendingCleanCallbacks (run asyncReducer selectAsyncStatus promiseNames
      [Start (Thunk 0) (Some ''a''), Settle 0 (Fulfilled 7), Finally 0] (init initialState)) ''a'' = Some 1
   \<and> timers (snd (cleanAsyncState ''a'' (run asyncReducer selectAsyncStatus promiseNames
      [Start (Thunk 0) (Some ''a''), Settle 0 (Fulfilled 7), Finally 0] (init initialState)))) 1 = None
   \<and> timers (snd (cleanAsyncState ''a'' (run asyncReducer selectAsyncStatus promiseNames
      [Start (Thunk 0) (Some ''a''), Settle 0 (Fulfilled 7), Finally 0] (init initialState)))) 2
     = timers (run asyncReducer selectAsyncStatus promiseNames
      [Start (Thunk 0) (Some ''a''), Settle 0 (Fulfilled 7), Finally 0] (init initialState)) 2
   \<and> pendingCleanCallbacks (snd (cleanAsyncState ''a'' (run asyncReducer selectAsyncStatus promiseNames
      [Start (Thunk 0) (Some ''a''), Settle 0 (Fulfilled 7), Finally 0] (init initialState)))) ''a'' = None"
proof -
  define w where "w = run asyncReducer selectAsyncStatus promiseNames
      [Start (Thunk 0) (Some ''a''), Settle 0 (Fulfilled 7), Finally 0] (init initialState)"
  have c: "pendingCleanCallbacks w ''a'' = Some 1" by (simp add: w_def model_defs)
  then have "pendingCleanCallbacks w ''a'' \<noteq> Some 2" by simp
  with c cleanAsyncState_idempotent [where i = "''a''" and w = w]
  have "pendingCleanCallbacks w ''a'' = Some 1
      \<and> timers (snd (cleanAsyncState ''a'' w)) 1 = None
      \<and> timers (snd (cleanAsyncState ''a'' w)) 2 = timers w 2
      \<and> pendingCleanCallbacks (snd (cleanAsyncState ''a'' w)) ''a'' = None"
    by simp
  then show ?thesis unfolding w_def .
qed

subsection \<open>\<open>startAsync\<close> on a pending id\<close>


lemma cacheGet_own: "cache k = Some a \<Longrightarrow> cacheGet has cache k = Some (PromiseRef a)"
  by (simp add: cacheGet_def)




text \<open>A call on a pending id returns what the cache reads.\<close>

lemma startAsync_joined:
  assumes "s \<noteq> []" and "sel (store w) s = PENDING" and "cacheGet has (asyncCallCache w) s = Some v"
  shows "startAsync reducer sel has thunk (Some s) w =
      (Inr v, if isPromise thunk then w\<lparr>trace := trace w @ [Warned s]\<rparr> else w)"
  using assms by (simp add: startAsync_def resolveId_def Let_def)

text \<open>What a call returned is what the cache reads at its id afterwards.\<close>

lemma startAsync_cached:
  assumes "s \<noteq> []" and "startAsync reducer sel has first (Some s) w0 = (Inr v, w)"
  shows "cacheGet has (asyncCallCache w) s = Some v"
proof (cases "sel (store w0) s = PENDING")
  case True
  have r: "fst (resolveId (Some s) w0) = s" using assms(1) by (simp add: resolveId_def)
  from assms(2) have w: "w = snd (startAsync reducer sel has first (Some s) w0)" by simp
  have c: "asyncCallCache w = asyncCallCache w0"
    unfolding w using True r by (simp add: startAsync_pending(4))
  from assms True show ?thesis
    unfolding c by (simp add: startAsync_def resolveId_def Let_def split: option.splits)
next
  case False
  have r: "fst (resolveId (Some s) w0) = s" using assms(1) by (simp add: resolveId_def)
  from assms(2) have w: "w = snd (startAsync reducer sel has first (Some s) w0)"
    and f: "fst (startAsync reducer sel has first (Some s) w0) = Inr v" by simp_all
  have nt: "\<not> throws first"
  proof
    assume "throws first"
    then obtain err where "first = Throws err" by (cases first) simp_all
    with f False r show False by (simp add: startAsync_thrown(1))
  qed
  with False r f have v: "v = PromiseRef (nextPromise w0)" by (simp add: startAsync_returns(1))
  have "asyncCallCache w = (asyncCallCache w0)(s \<mapsto> nextPromise w0)"
    unfolding w using False r nt by (simp add: startAsync_returns(2))
  with v show ?thesis by (simp add: cacheGet_def)
qed

text \<open>
  The empty string is an id like any other to the caller, and falsy to \<open>startAsync\<close>:
  two calls in a row with the empty string as explicit id and a thunk each generate an
  id, and return two handles, while the first call is pending (its status is \<open>PENDING\<close>,
  its promise has not settled).
\<close>

theorem startAsync_empty_id_not_joined:
  "fst (startAsync asyncReducer selectAsyncStatus promiseNames (Thunk 0) (Some '''') (init initialState))
     = Inr (PromiseRef 0)
   \<and> promises (snd (startAsync asyncReducer selectAsyncStatus promiseNames (Thunk 0) (Some '''')
        (init initialState))) 0
       = Some \<lparr>id_prop = ''async-0'', settled = None\<rparr>
   \<and> selectAsyncStatus
        (store (snd (startAsync asyncReducer selectAsyncStatus promiseNames (Thunk 0) (Some '''')
           (init initialState))))
        ''async-0'' = PENDING
   \<and> fst (startAsync asyncReducer selectAsyncStatus promiseNames (Thunk 1) (Some '''')
        (snd (startAsync asyncReducer selectAsyncStatus promiseNames (Thunk 0) (Some '''')
           (init initialState)))) = Inr (PromiseRef 1)
   \<and> promises (snd (startAsync asyncReducer selectAsyncStatus promiseNames (Thunk 1) (Some '''')
        (snd (startAsync asyncReducer selectAsyncStatus promiseNames (Thunk 0) (Some '''')
           (init initialState))))) 1
       = Some \<lparr>id_prop = ''async-1'', settled = None\<rparr>"
  by (simp add: model_defs string_of_nat_digits)

text \<open>
  Claim C1. A call of \<open>startAsync\<close> with an explicit id that is not the empty string and
  whose status is \<open>PENDING\<close> returns what the call cache reads at the id, the cached
  handle when the id has an entry, and leaves the state as it found it: nothing is
  dispatched, and the only effect is the console warning when a promise rather than a
  thunk was passed. In particular, when a first call with such an id has returned a
  handle and the id is \<open>PENDING\<close> after it, a second call with the same id and a thunk
  returns the same handle and changes nothing. A call with the empty string as id is the
  call with no id.
\<close>

theorem startAsync_joins_pending:
  assumes "s \<noteq> []" and "sel (store w) s = PENDING"
  shows "(cacheGet has (asyncCallCache w) s = Some v \<longrightarrow>
            startAsync reducer sel has thunk (Some s) w =
              (Inr v, if isPromise thunk then w\<lparr>trace := trace w @ [Warned s]\<rparr> else w))
       \<and> (asyncCallCache w s = Some p \<longrightarrow>
            startAsync reducer sel has thunk (Some s) w =
              (Inr (PromiseRef p), if isPromise thunk then w\<lparr>trace := trace w @ [Warned s]\<rparr> else w))
       \<and> (startAsync reducer sel has first (Some s) w0 = (Inr v, w) \<longrightarrow>
            startAsync reducer sel has (Thunk t) (Some s) w = (Inr v, w))
       \<and> startAsync reducer sel has thunk (Some []) u = startAsync reducer sel has thunk None u"
proof -
  have 1: "startAsync reducer sel has thunk (Some s) w =
      (Inr v, if isPromise thunk then w\<lparr>trace := trace w @ [Warned s]\<rparr> else w)"
    if "cacheGet has (asyncCallCache w) s = Some v"
    using assms that by (rule startAsync_joined)
  have 2: "startAsync reducer sel has thunk (Some s) w =
      (Inr (PromiseRef p), if isPromise thunk then w\<lparr>trace := trace w @ [Warned s]\<rparr> else w)"
    if "asyncCallCache w s = Some p"
    using assms cacheGet_own [where cache = "asyncCallCache w" and k = s and a = p and has = has] that
    by (simp add: startAsync_joined)
  have 3: "startAsync reducer sel has (Thunk t) (Some s) w = (Inr v, w)"
    if "startAsync reducer sel has first (Some s) w0 = (Inr v, w)"
  proof -
    have "cacheGet has (asyncCallCache w) s = Some v"
      using assms(1) that by (rule startAsync_cached)
    with assms have "startAsync reducer sel has (Thunk t) (Some s) w =
      (Inr v, if isPromise (Thunk t) then w\<lparr>trace := trace w @ [Warned s]\<rparr> else w)"
      by (rule startAsync_joined)
    then show ?thesis by simp
  qed
  have 4: "startAsync reducer sel has thunk (Some []) u = startAsync reducer sel has thunk None u"
    by (simp add: startAsync_def resolveId_def)
  from 1 2 3 4 show ?thesis by (intro conjI impI)
qed

text \<open>
  Witness: \<open>user-1\<close> is started with a thunk and started again at once; both calls
  return the handle 0 and the second leaves the state alone.
\<close>

theorem startAsync_joins_pending_witness:
  "startAsync asyncReducer selectAsyncStatus promiseNames (Thunk 1) (Some ''user-1'')
     (snd (startAsync asyncReducer selectAsyncStatus promiseNames (Thunk 0) (Some ''user-1'')
        (init initialState)))
   = (Inr (PromiseRef 0),
      snd (startAsync asyncReducer selectAsyncStatus promiseNames (Thunk 0) (Some ''user-1'')
        (init initialState)))
   \<and> fst (startAsync asyncReducer selectAsyncStatus promiseNames (Thunk 0) (Some ''user-1'')
       (init initialState)) = Inr (PromiseRef 0)
   \<and> asyncCallCache
       (snd (startAsync asyncReducer selectAsyncStatus promiseNames (Thunk 0) (Some ''user-1'')
          (init initialState)))
       ''user-1'' = Some 0"
proof -
  define r where "r = startAsync asyncReducer selectAsyncStatus promiseNames (Thunk 0) (Some ''user-1'')
      (init initialState)"
  have f: "fst r = Inr (PromiseRef 0)" by (simp add: r_def model_defs)
  then have 1: "r = (Inr (PromiseRef 0), snd r)" by (metis prod.collapse)
  have 2: "selectAsyncStatus (store (snd r)) ''user-1'' = PENDING" by (simp add: r_def model_defs)
  have 3: "''user-1'' \<noteq> []" by simp
  have 4: "asyncCallCache (snd r) ''user-1'' = Some 0" by (simp add: r_def model_defs)
  have 5: "startAsync asyncReducer selectAsyncStatus promiseNames (Thunk 0) (Some ''user-1'')
      (init initialState) = (Inr (PromiseRef 0), snd r)"
    using 1 by (simp add: r_def)
  have "startAsync asyncReducer selectAsyncStatus promiseNames (Thunk 1) (Some ''user-1'') (snd r)
      = (Inr (PromiseRef 0), snd r)"
    using startAsync_joins_pending
      [where s = "''user-1''" and sel = selectAsyncStatus and w = "snd r" and p = 0
         and v = "PromiseRef 0" and has = promiseNames
         and reducer = asyncReducer and thunk = "Thunk 1" and first = "Thunk 0"
         and ?w0.0 = "init initialState" and t = 1] 2 3 4 5
    by simp
  with f 4 show ?thesis unfolding r_def by blast
qed

subsection \<open>The handle of a fresh call\<close>

text \<open>
  A promise started under the empty string as explicit id gets a handle whose \<open>id\<close> is
  \<open>async-0\<close>, not the id that was supplied.
\<close>

theorem empty_id_handle_generated:
  "fst (startAsync asyncReducer selectAsyncStatus promiseNames (Promise 0) (Some '''') (init initialState))
     = Inr (PromiseRef 0)
   \<and> map_option id_prop
       (promises (snd (startAsync asyncReducer selectAsyncStatus promiseNames (Promise 0) (Some '''')
          (init initialState))) 0)
       = Some ''async-0''"
  by (simp add: model_defs string_of_nat_digits)

text \<open>
  Claim C9. A call of \<open>startAsync\<close> that does not find its id pending, and whose thunk (if
  one was passed) returns its promise, returns a new handle whose \<open>id\<close> property is the
  identifier used for the call, and registers the handle in the call cache under that
  identifier, where a read of the cache finds it. The identifier is the explicit id when
  one is supplied and is not the empty string, and the generated one, \<open>async-\<close> and the
  counter, otherwise. When the thunk throws there is no handle: the call throws the
  error, and the heap of promises and the call cache stay as they were.
\<close>

theorem startAsync_fresh_handle_id:
  assumes "sel (store w) (fst (resolveId asyncId w)) \<noteq> PENDING"
  shows "(\<not> throws thunk \<longrightarrow>
        fst (startAsync reducer sel has thunk asyncId w) = Inr (PromiseRef (nextPromise w))
      \<and> promises (snd (startAsync reducer sel has thunk asyncId w)) (nextPromise w) =
          Some \<lparr>id_prop = fst (resolveId asyncId w), settled = None\<rparr>
      \<and> asyncCallCache (snd (startAsync reducer sel has thunk asyncId w)) (fst (resolveId asyncId w)) =
          Some (nextPromise w)
      \<and> cacheGet has (asyncCallCache (snd (startAsync reducer sel has thunk asyncId w)))
          (fst (resolveId asyncId w)) = Some (PromiseRef (nextPromise w)))
    \<and> fst (resolveId asyncId w) =
        (case asyncId of
           None \<Rightarrow> ''async-'' @ string_of_nat (nextAsyncId w)
         | Some s \<Rightarrow> if s = [] then ''async-'' @ string_of_nat (nextAsyncId w) else s)
    \<and> fst (startAsync reducer sel has (Throws err) asyncId w) = Inl err
    \<and> promises (snd (startAsync reducer sel has (Throws err) asyncId w)) = promises w
    \<and> asyncCallCache (snd (startAsync reducer sel has (Throws err) asyncId w)) = asyncCallCache w"
  using assms resolveId_fst [of asyncId w]
    startAsync_returns
      [where sel = sel and w = w and asyncId = asyncId and reducer = reducer and thunk = thunk
         and has = has]
    startAsync_thrown
      [where sel = sel and w = w and asyncId = asyncId and reducer = reducer and err = err
         and has = has]
  by (simp add: cacheGet_def)

text \<open>Witness: a call under \<open>user-1\<close>, and a call without an id, on the initial state.\<close>

theorem startAsync_fresh_handle_id_witness:
  "fst (startAsync asyncReducer selectAsyncStatus promiseNames (Thunk 0) (Some ''user-1'')
      (init initialState)) = Inr (PromiseRef 0)
   \<and> promises (snd (startAsync asyncReducer selectAsyncStatus promiseNames (Thunk 0) (Some ''user-1'')
      (init initialState))) 0
       = Some \<lparr>id_prop = ''user-1'', settled = None\<rparr>
   \<and> fst (startAsync asyncReducer selectAsyncStatus promiseNames (Thunk 0) None (init initialState))
       = Inr (PromiseRef 0)
   \<and> promises (snd (startAsync asyncReducer selectAsyncStatus promiseNames (Thunk 0) None
      (init initialState))) 0
       = Some \<lparr>id_prop = ''async-0'', settled = None\<rparr>"
proof -
  have z: "string_of_nat 0 = ''0''" by (rule string_of_nat_digits)
  have 1: "selectAsyncStatus (store (init initialState)) (fst (resolveId (Some ''user-1'') (init initialState)))
       \<noteq> PENDING"
    by (simp add: model_defs)
  have 2: "selectAsyncStatus (store (init initialState)) (fst (resolveId None (init initialState)))
       \<noteq> PENDING"
    by (simp add: model_defs)
  have 3: "\<not> throws (Thunk 0)" by simp
  from 1 2 3 z
    startAsync_fresh_handle_id
      [where sel = selectAsyncStatus and w = "init initialState" and asyncId = "Some ''user-1''"
         and reducer = asyncReducer and thunk = "Thunk 0" and has = promiseNames]
    startAsync_fresh_handle_id
      [where sel = selectAsyncStatus and w = "init initialState" and asyncId = None
         and reducer = asyncReducer and thunk = "Thunk 0" and has = promiseNames]
  show ?thesis by (simp add: init_def)
qed

subsection \<open>Work that fails\<close>




subsection \<open>The cleanup timer\<close>

text \<open>
  \<open>job-7\<close> is retained, started, and its work fails. The retain count is 1 before and
  after the \<open>finally\<close> callback runs, and the callback arms the cleanup timer all the same.
\<close>

theorem retained_call_still_armed:
  "map_option retainCount
     (store (run asyncReducer selectAsyncStatus promiseNames
        [Retain ''job-7'', Start (Thunk 0) (Some ''job-7''), Settle 0 (Rejected ''boom'')]
        (init initialState)) ''job-7'') = Some 1
   \<and> map_option retainCount
     (store (run asyncReducer selectAsyncStatus promiseNames
        [Retain ''job-7'', Start (Thunk 0) (Some ''job-7''), Settle 0 (Rejected ''boom''), Finally 0]
        (init initialState)) ''job-7'') = Some 1
   \<and> timers (run asyncReducer selectAsyncStatus promiseNames
        [Retain ''job-7'', Start (Thunk 0) (Some ''job-7''), Settle 0 (Rejected ''boom'')]
        (init initialState)) 1 = None
   \<and> timers (run asyncReducer selectAsyncStatus promiseNames
        [Retain ''job-7'', Start (Thunk 0) (Some ''job-7''), Settle 0 (Rejected ''boom''), Finally 0]
        (init initialState)) 1 = Some (''job-7'', 1000)"
  by (simp add: model_defs)

text \<open>
  Claim C3. When the \<open>finally\<close> callback of a handle runs, it deletes the cache entry of
  the id, dispatches the finished transition and then arms a cleanup callback for the id,
  whatever the store holds (the retain count is not looked at), with the delay
  \<open>CLEAN_DELAY\<close>, which is 1000; the new timer is recorded in \<open>pendingCleanCallbacks\<close>
  under the id. Under the id \<open>__proto__\<close> the objects neither delete nor record
  anything. When a scheduled timer fires, its callback cancels the timer recorded under
  the id, deletes the id's entry of \<open>pendingCleanCallbacks\<close> and dispatches the clean
  transition of the id to the store; it leaves the call cache alone.
\<close>

theorem finished_arms_cleanup:
  assumes "reported w a = Some r" and "promises w a = Some b"
  shows "timers (snd (run_finally reducer a w)) = (timers w)(nextTimer w \<mapsto> (id_prop b, CLEAN_DELAY))
    \<and> CLEAN_DELAY = 1000
    \<and> pendingCleanCallbacks (snd (run_finally reducer a w)) =
        (if id_prop b = ''__proto__'' then pendingCleanCallbacks w
         else (pendingCleanCallbacks w)(id_prop b \<mapsto> nextTimer w))
    \<and> asyncCallCache (snd (run_finally reducer a w)) =
        (if id_prop b = ''__proto__'' then asyncCallCache w else (asyncCallCache w)(id_prop b := None))
    \<and> trace (snd (run_finally reducer a w)) =
        trace w @ [Dispatched (ASYNC_FINISHED (id_prop b)), SetTimeout (nextTimer w) (id_prop b) CLEAN_DELAY]
    \<and> (timers v t = Some (i, d) \<longrightarrow>
          timers (fire reducer t v) =
            (case pendingCleanCallbacks v i of None \<Rightarrow> (timers v)(t := None)
             | Some t' \<Rightarrow> (timers v)(t := None, t' := None))
        \<and> pendingCleanCallbacks (fire reducer t v) =
            (if i = ''__proto__'' then pendingCleanCallbacks v else (pendingCleanCallbacks v)(i := None))
        \<and> store (fire reducer t v) = reducer (store v) (CLEAN_ASYNC_STATE i)
        \<and> trace (fire reducer t v) =
            trace v @ [ClearTimeout (pendingCleanCallbacks v i), Dispatched (CLEAN_ASYNC_STATE i)]
        \<and> asyncCallCache (fire reducer t v) = asyncCallCache v)"
  using assms
  by (simp add: run_finally_ready fire_scheduled CLEAN_DELAY_def recordHandle_def deleteProp_def)

text \<open>
  Witness: the retained \<open>job-7\<close> again; after its \<open>finally\<close> callback one timer is
  scheduled, and when it fires no timer is left and the entry of the id is gone.
\<close>

theorem finished_arms_cleanup_witness:
  "timers (run asyncReducer selectAsyncStatus promiseNames
      [Retain ''job-7'', Start (Thunk 0) (Some ''job-7''), Settle 0 (Rejected ''boom''), Finally 0]
      (init initialState)) = [1 \<mapsto> (''job-7'', 1000)]
   \<and> pendingCleanCallbacks (run asyncReducer selectAsyncStatus promiseNames
      [Retain ''job-7'', Start (Thunk 0) (Some ''job-7''), Settle 0 (Rejected ''boom''), Finally 0]
      (init initialState)) ''job-7'' = Some 1
   \<and> timers (fire asyncReducer 1 (run asyncReducer selectAsyncStatus promiseNames
      [Retain ''job-7'', Start (Thunk 0) (Some ''job-7''), Settle 0 (Rejected ''boom''), Finally 0]
      (init initialState))) 1 = None
   \<and> pendingCleanCallbacks (fire asyncReducer 1 (run asyncReducer selectAsyncStatus promiseNames
      [Retain ''job-7'', Start (Thunk 0) (Some ''job-7''), Settle 0 (Rejected ''boom''), Finally 0]
      (init initialState))) ''job-7'' = None"
proof -
  define w where "w = run asyncReducer selectAsyncStatus promiseNames
      [Retain ''job-7'', Start (Thunk 0) (Some ''job-7''), Settle 0 (Rejected ''boom'')] (init initialState)"
  define v where "v = run asyncReducer selectAsyncStatus promiseNames
      [Retain ''job-7'', Start (Thunk 0) (Some ''job-7''), Settle 0 (Rejected ''boom''), Finally 0]
      (init initialState)"
  have v: "v = snd (run_finally asyncReducer 0 w)" by (simp add: v_def w_def)
  have p: "promises w 0 = Some \<lparr>id_prop = ''job-7'', settled = None\<rparr>"
    and r: "reported w 0 = Some (Rejected ''boom'')"
    and t: "timers w = Map.empty" and n: "nextTimer w = 1" and c: "pendingCleanCallbacks w ''job-7'' = None"
    by (simp_all add: w_def model_defs)
  have armed: "timers v = [1 \<mapsto> (''job-7'', 1000)] \<and> pendingCleanCallbacks v ''job-7'' = Some 1"
    using finished_arms_cleanup
      [where w = w and a = 0 and b = "\<lparr>id_prop = ''job-7'', settled = None\<rparr>"
         and r = "Rejected ''boom''" and reducer = asyncReducer] p r t n c
    unfolding v by simp
  then have "timers v 1 = Some (''job-7'', 1000)" by simp
  with armed p r
    finished_arms_cleanup
      [where w = w and a = 0 and b = "\<lparr>id_prop = ''job-7'', settled = None\<rparr>"
         and r = "Rejected ''boom''"
         and v = v and t = 1 and i = "''job-7''" and d = 1000 and reducer = asyncReducer]
  have "timers v = [1 \<mapsto> (''job-7'', 1000)] \<and> pendingCleanCallbacks v ''job-7'' = Some 1
    \<and> timers (fire asyncReducer 1 v) 1 = None \<and> pendingCleanCallbacks (fire asyncReducer 1 v) ''job-7'' = None"
    by simp
  then show ?thesis unfolding v_def .
qed

text \<open>
  \<open>a\<close> is started, cleaned by hand while it is pending, and started again, so two
  calls are in flight under one id. When the first finishes, timer 1 is armed; when the
  second finishes, timer 2 is armed and timer 1 is still scheduled.
\<close>

theorem two_timers_for_one_id:
  "timers (run asyncReducer selectAsyncStatus promiseNames
      [Start (Thunk 0) (Some ''a''), Clean ''a'', Start (Thunk 1) (Some ''a''),
       Settle 0 (Fulfilled 7), Finally 0] (init initialState)) 1 = Some (''a'', 1000)
   \<and> timers (run asyncReducer selectAsyncStatus promiseNames
      [Start (Thunk 0) (Some ''a''), Clean ''a'', Start (Thunk 1) (Some ''a''),
       Settle 0 (Fulfilled 7), Finally 0, Settle 1 (Fulfilled 8), Finally 1] (init initialState)) 1
     = Some (''a'', 1000)
   \<and> timers (run asyncReducer selectAsyncStatus promiseNames
      [Start (Thunk 0) (Some ''a''), Clean ''a'', Start (Thunk 1) (Some ''a''),
       Settle 0 (Fulfilled 7), Finally 0, Settle 1 (Fulfilled 8), Finally 1] (init initialState)) 2
     = Some (''a'', 1000)"
  by (simp add: model_defs)

text \<open>No run records a timer under \<open>__proto__\<close>.\<close>

lemma exec_proto_unrecorded:
  assumes "pendingCleanCallbacks w ''__proto__'' = None"
  shows "pendingCleanCallbacks (exec reducer sel has x w) ''__proto__'' = None"
proof (cases x)
  case (Start thunk asyncId)
  with assms show ?thesis
    by (cases "sel (store w) (fst (resolveId asyncId w)) = PENDING")
      (simp_all add: startAsync_pending(3) startAsync_fresh(4))
next
  case (Settle a out)
  with assms show ?thesis
    by (cases rule: settle_cases [where w = w and a = a and reducer = reducer and out = out])
      (simp_all add: settle_waiting(5))
next
  case (Finally a)
  with assms show ?thesis
    by (cases rule: run_finally_cases [where w = w and a = a and reducer = reducer])
      (simp_all add: run_finally_ready(5) recordHandle_def)
next
  case (Fire t)
  with assms show ?thesis
    by (cases "timers w t") (auto simp add: fire_idle fire_scheduled(4) deleteProp_def)
qed (use assms in \<open>simp_all add: deleteProp_def\<close>)

lemma run_proto_unrecorded:
  "pendingCleanCallbacks w ''__proto__'' = None \<Longrightarrow>
   pendingCleanCallbacks (run reducer sel has xs w) ''__proto__'' = None"
  by (induction xs arbitrary: w) (simp_all add: exec_proto_unrecorded)

text \<open>
  Claim C4. A call of \<open>startAsync\<close> that does not find its id pending cancels the timer
  that \<open>pendingCleanCallbacks\<close> records under the id, right after dispatching the started
  transition and before the thunk is called, and \<open>cleanAsyncState\<close> cancels that timer
  as well. Arming does not cancel: the \<open>finally\<close> callback schedules a new timer, leaves
  every other timer as it is, and overwrites the record of the id with the new handle.
  Under \<open>__proto__\<close> no timer is ever recorded, so in a state that a run reaches
  neither a start nor \<open>cleanAsyncState\<close> of that id cancels a timer.
\<close>

theorem timer_cancelled_on_start_only:
  "(sel (store w) (fst (resolveId asyncId w)) \<noteq> PENDING \<longrightarrow>
      timers (snd (startAsync reducer sel has thunk asyncId w)) =
        (case pendingCleanCallbacks w (fst (resolveId asyncId w)) of
           None \<Rightarrow> timers w | Some t \<Rightarrow> (timers w)(t := None))
    \<and> trace (snd (startAsync reducer sel has thunk asyncId w)) =
        trace w @ [Dispatched (ASYNC_STARTED (fst (resolveId asyncId w))),
                   ClearTimeout (pendingCleanCallbacks w (fst (resolveId asyncId w)))]
          @ (case thunk of Promise p \<Rightarrow> [] | Thunk p \<Rightarrow> [Called p] | Throws err \<Rightarrow> [Threw err]))
   \<and> timers (snd (cleanAsyncState i w)) =
        (case pendingCleanCallbacks w i of None \<Rightarrow> timers w | Some t \<Rightarrow> (timers w)(t := None))
   \<and> (reported w a = Some r \<and> promises w a = Some b \<longrightarrow>
        timers (snd (run_finally reducer a w)) = (timers w)(nextTimer w \<mapsto> (id_prop b, CLEAN_DELAY))
      \<and> (\<forall>t. t \<noteq> nextTimer w \<longrightarrow> timers (snd (run_finally reducer a w)) t = timers w t)
      \<and> pendingCleanCallbacks (snd (run_finally reducer a w)) =
          (if id_prop b = ''__proto__'' then pendingCleanCallbacks w
           else (pendingCleanCallbacks w)(id_prop b \<mapsto> nextTimer w)))
   \<and> pendingCleanCallbacks (run reducer sel has xs (init st)) ''__proto__'' = None
   \<and> timers (snd (cleanAsyncState ''__proto__'' (run reducer sel has xs (init st)))) =
       timers (run reducer sel has xs (init st))
   \<and> (sel (store (run reducer sel has xs (init st))) ''__proto__'' \<noteq> PENDING \<longrightarrow>
        timers (snd (startAsync reducer sel has thunk (Some ''__proto__'') (run reducer sel has xs (init st))))
          = timers (run reducer sel has xs (init st)))"
proof -
  define v where "v = run reducer sel has xs (init st)"
  have "pendingCleanCallbacks (init st) ''__proto__'' = None" by (simp add: init_def)
  then have u: "pendingCleanCallbacks v ''__proto__'' = None"
    unfolding v_def by (rule run_proto_unrecorded)
  have i: "fst (resolveId (Some ''__proto__'') v) = ''__proto__''" by (simp add: resolveId_def)
  have s: "timers (snd (startAsync reducer sel has thunk (Some ''__proto__'') v)) = timers v"
    if "sel (store v) ''__proto__'' \<noteq> PENDING"
    using startAsync_fresh(3) [where sel = sel and w = v and asyncId = "Some ''__proto__''"
        and reducer = reducer and has = has and thunk = thunk] that i u
    by simp
  from u s have "pendingCleanCallbacks v ''__proto__'' = None
      \<and> timers (snd (cleanAsyncState ''__proto__'' v)) = timers v
      \<and> (sel (store v) ''__proto__'' \<noteq> PENDING \<longrightarrow>
           timers (snd (startAsync reducer sel has thunk (Some ''__proto__'') v)) = timers v)"
    by simp
  then show ?thesis
    unfolding v_def by (simp add: startAsync_fresh run_finally_ready recordHandle_def)
qed

text \<open>
  Witness: \<open>a\<close> is started and finishes, which arms timer 1; the next start of \<open>a\<close>
  cancels timer 1 before it calls the thunk, and when that call finishes timer 2 is armed.
\<close>

theorem timer_cancelled_on_start_only_witness:
  "timers (run asyncReducer selectAsyncStatus promiseNames
      [Start (Thunk 0) (Some ''a''), Settle 0 (Fulfilled 7), Finally 0] (init initialState)) 1
     = Some (''a'', 1000)
   \<and> timers (run asyncReducer selectAsyncStatus promiseNames
      [Start (Thunk 0) (Some ''a''), Settle 0 (Fulfilled 7), Finally 0, Start (Thunk 1) (Some ''a'')]
      (init initialState)) 1 = None
   \<and> trace (run asyncReducer selectAsyncStatus promiseNames
      [Start (Thunk 0) (Some ''a''), Settle 0 (Fulfilled 7), Finally 0, Start (Thunk 1) (Some ''a'')]
      (init initialState))
     = trace (run asyncReducer selectAsyncStatus promiseNames
        [Start (Thunk 0) (Some ''a''), Settle 0 (Fulfilled 7), Finally 0] (init initialState))
       @ [Dispatched (ASYNC_STARTED ''a''), ClearTimeout (Some 1), Called 1]
   \<and> timers (run asyncReducer selectAsyncStatus promiseNames
      [Start (Thunk 0) (Some ''a''), Settle 0 (Fulfilled 7), Finally 0, Start (Thunk 1) (Some ''a''),
       Settle 1 (Fulfilled 8), Finally 1] (init initialState)) 2 = Some (''a'', 1000)"
proof -
  define w where "w = run asyncReducer selectAsyncStatus promiseNames
      [Start (Thunk 0) (Some ''a''), Settle 0 (Fulfilled 7), Finally 0] (init initialState)"
  define v where "v = run asyncReducer selectAsyncStatus promiseNames
      [Start (Thunk 0) (Some ''a''), Settle 0 (Fulfilled 7), Finally 0, Start (Thunk 1) (Some ''a'')]
      (init initialState)"
  define v' where "v' = run asyncReducer selectAsyncStatus promiseNames
      [Start (Thunk 0) (Some ''a''), Settle 0 (Fulfilled 7), Finally 0, Start (Thunk 1) (Some ''a''),
       Settle 1 (Fulfilled 8)] (init initialState)"
  define u where "u = run asyncReducer selectAsyncStatus promiseNames
      [Start (Thunk 0) (Some ''a''), Settle 0 (Fulfilled 7), Finally 0, Start (Thunk 1) (Some ''a''),
       Settle 1 (Fulfilled 8), Finally 1] (init initialState)"
  have v: "v = snd (startAsync asyncReducer selectAsyncStatus promiseNames (Thunk 1) (Some ''a'') w)"
    by (simp add: v_def w_def)
  have u: "u = snd (run_finally asyncReducer 1 v')" by (simp add: u_def v'_def)
  have i: "fst (resolveId (Some ''a'') w) = ''a''" by (simp add: resolveId_def)
  have fresh: "selectAsyncStatus (store w) ''a'' \<noteq> PENDING"
    and c: "pendingCleanCallbacks w ''a'' = Some 1"
    and t: "timers w 1 = Some (''a'', 1000)"
    by (simp_all add: w_def model_defs)
  have p: "promises v' 1 = Some \<lparr>id_prop = ''a'', settled = None\<rparr>"
    and r: "reported v' 1 = Some (Fulfilled 8)" and n: "nextTimer v' = 2"
    by (simp_all add: v'_def model_defs)
  have start: "timers v 1 = None
      \<and> trace v = trace w @ [Dispatched (ASYNC_STARTED ''a''), ClearTimeout (Some 1), Called 1]"
    using timer_cancelled_on_start_only
      [where sel = selectAsyncStatus and w = w and asyncId = "Some ''a''" and reducer = asyncReducer
         and thunk = "Thunk 1" and has = promiseNames] i fresh c
    unfolding v by simp
  have "timers u 2 = Some (''a'', 1000)"
    using timer_cancelled_on_start_only
      [where w = v' and a = 1 and b = "\<lparr>id_prop = ''a'', settled = None\<rparr>" and reducer = asyncReducer
         and r = "Fulfilled 8"] p r n
    unfolding u by (simp add: CLEAN_DELAY_def)
  with start t have "timers w 1 = Some (''a'', 1000) \<and> timers v 1 = None
      \<and> trace v = trace w @ [Dispatched (ASYNC_STARTED ''a''), ClearTimeout (Some 1), Called 1]
      \<and> timers u 2 = Some (''a'', 1000)"
    by blast
  then show ?thesis unfolding w_def v_def u_def .
qed

subsection \<open>The order of a call's transitions\<close>





lemma handles_known_exec:
  assumes "handles_known w"
  shows "handles_known (exec reducer sel has x w)"
proof (cases x)
  case (Start thunk asyncId)
  show ?thesis
  proof (cases "sel (store w) (fst (resolveId asyncId w)) = PENDING")
    case True
    with assms Start show ?thesis
      by (simp add: handles_known_def startAsync_pending)
  next
    case False
    show ?thesis
    proof (cases "throws thunk")
      case True
      then obtain err where "thunk = Throws err" by (cases thunk) simp_all
      with assms Start False show ?thesis
        by (simp add: handles_known_def startAsync_fresh(6) startAsync_thrown)
    next
      case nt: False
      have new: "reported w (nextPromise w) = None"
        using assms unfolding handles_known_def
        by (cases "promises w (nextPromise w)") auto
      with assms Start False nt show ?thesis
        by (auto simp add: handles_known_def startAsync_fresh(6) startAsync_returns less_Suc_eq)
    qed
  qed
next
  case (Settle a out)
  show ?thesis
  proof (cases rule: settle_cases [where w = w and a = a and reducer = reducer and out = out])
    case (waiting b)
    with assms Settle show ?thesis
      by (auto simp add: handles_known_def settle_waiting)
  next
    case idle
    with assms Settle show ?thesis by simp
  qed
next
  case (Finally a)
  show ?thesis
  proof (cases rule: run_finally_cases [where w = w and a = a and reducer = reducer])
    case (ready r b)
    with assms Finally show ?thesis
      by (auto simp add: handles_known_def run_finally_ready)
  next
    case idle
    with assms Finally show ?thesis by simp
  qed
next
  case (Fire t)
  with assms show ?thesis
    by (cases "timers w t") (auto simp add: handles_known_def fire_idle fire_scheduled)
qed (use assms in \<open>auto simp add: handles_known_def\<close>)

lemma handles_known_run: "handles_known w \<Longrightarrow> handles_known (run reducer sel has xs w)"
  by (induction xs arbitrary: w) (simp_all add: handles_known_exec)



















subsection \<open>The call cache and the status\<close>












end
